theory Spec2Isabelle
  imports Complex_Main "HOL-Library.Sublist"
begin

section \<open>Data model (types.ts)\<close>

text \<open>
  A JavaScript \<open>number\<close> is a double. The model holds its value as an exact rational:
  comparison, equality and the decimal literals \<open>0.85\<close> and \<open>1.0\<close> mean on rationals what
  they mean on the finite doubles the program meets. Where the program computes a number,
  in \<open>parseInt\<close> and in the subtraction of 1, the model rounds to the nearest double as
  the program does. The one infinity the program can compute, \<open>parseInt\<close> of a digit
  string beyond the largest double, is held as \<open>2 ^ 1024\<close>, a value that no finite
  double has: it compares and equals as \<open>Infinity\<close> does. \<open>NaN\<close> and a number that is
  infinite in the JSON document are outside the model.

  A JavaScript string is modelled as a \<open>string\<close>: a list of code units below 256.
\<close>

type_synonym number = rat

text \<open>\<open>fila: string | number\<close>, a tagged union.\<close>

datatype row_label = Num number | Str string

text \<open>\<open>interface MatrixCell\<close>; the fields marked \<open>?\<close> are optional.\<close>

record MatrixCell =
  fila :: row_label
  col :: number
  valor :: string
  confianza :: number
  ref_id :: "string option"
  recorte_base64 :: "string option"
  valor_original :: "string option"

section \<open>Row-label parser (MatrixEditor.tsx, parseRowIndex)\<close>

text \<open>
  The character classes \<open>\d\<close> (the code units of 0 to 9) and \<open>\s\<close> (the white space
  and line terminators below 256) of a regular expression without the \<open>u\<close> flag.
\<close>

definition isDigit :: "char \<Rightarrow> bool" where
  "isDigit c = (48 \<le> (of_char c :: nat) \<and> (of_char c :: nat) \<le> 57)"

definition isSpace :: "char \<Rightarrow> bool" where
  "isSpace c = (c \<in> set [CHR 0x09, CHR 0x0A, CHR 0x0B, CHR 0x0C, CHR 0x0D, CHR 0x20, CHR 0xA0])"

text \<open>
  Case folding of the \<open>i\<close> flag: a character is compared through its upper-case form.
  Only the letters a to z fold onto an ASCII letter, so only they matter for a pattern
  made of ASCII letters.
\<close>

definition canonicalize :: "char \<Rightarrow> char" where
  "canonicalize c =
     (case map_of (zip ''abcdefghijklmnopqrstuvwxyz'' ''ABCDEFGHIJKLMNOPQRSTUVWXYZ'') c of
        None \<Rightarrow> c
      | Some u \<Rightarrow> u)"

text \<open>
  \<open>/Fila\s*(\d+)/i\<close> tried at the start of \<open>s\<close>: the four letters, then the longest run
  of whitespace, then the longest run of digits, which must not be empty. Giving back
  whitespace or digits never helps the match, so the greedy runs are the only attempt.
  The result is capture group 1.
\<close>

definition matchFilaAt :: "string \<Rightarrow> string option" where
  "matchFilaAt s =
     (if map canonicalize (take 4 s) = ''FILA''
      then (let ds = takeWhile isDigit (dropWhile isSpace (drop 4 s))
            in if ds = [] then None else Some ds)
      else None)"

text \<open>
  \<open>rowLabel.match(/Fila\s*(\d+)/i)\<close>: the pattern is not anchored, so the search tries
  every start position from the left and keeps the first match.
\<close>

fun matchFila :: "string \<Rightarrow> string option" where
  "matchFila [] = None"
| "matchFila (c # s) =
     (case matchFilaAt (c # s) of
        Some ds \<Rightarrow> Some ds
      | None \<Rightarrow> matchFila s)"

text \<open>\<open>rowLabel.match(/^(\d+)$/)\<close>: the whole string is one or more digits.\<close>

definition matchNum :: "string \<Rightarrow> string option" where
  "matchNum s = (if s \<noteq> [] \<and> list_all isDigit s then Some s else None)"

text \<open>
  The double nearest to a natural number, as a natural number again: the number keeps
  its 53 leading bits, and what is cut off rounds it to the nearest, a tie to the even
  neighbour. A number of at most 53 bits is kept as it is. A number that rounds to
  \<open>2 ^ 1024\<close> or more is beyond the largest double and becomes \<open>Infinity\<close>, held as
  \<open>2 ^ 1024\<close>.
\<close>

fun bitLength :: "nat \<Rightarrow> nat" where
  "bitLength n = (if n = 0 then 0 else Suc (bitLength (n div 2)))"

declare bitLength.simps [simp del]

definition toDouble :: "nat \<Rightarrow> nat" where
  "toDouble n =
     (let e = bitLength n - 53;
          q = n div 2 ^ e;
          r = n mod 2 ^ e;
          q' = (if 2 ^ e < 2 * r \<or> (2 * r = 2 ^ e \<and> odd q) then q + 1 else q);
          m = q' * 2 ^ e
      in if 2 ^ 1024 \<le> m then 2 ^ 1024 else m)"

text \<open>
  \<open>parseInt(ds, 10)\<close> on a string of decimal digits, the only arguments the parser
  passes to it: the integer the digits write, as a double. The engines round it
  correctly, which is what the model does.
\<close>

definition digitVal :: "char \<Rightarrow> nat" where
  "digitVal c = of_char c - 48"

definition digitsValue :: "string \<Rightarrow> nat" where
  "digitsValue ds = foldl (\<lambda>a c. 10 * a + digitVal c) 0 ds"

definition parseInt10 :: "string \<Rightarrow> nat" where
  "parseInt10 ds = toDouble (digitsValue ds)"

text \<open>
  \<open>d - 1\<close> for a double \<open>d\<close> that is a natural number or \<open>Infinity\<close>: the exact
  difference, rounded to the nearest double; \<open>Infinity - 1\<close> is \<open>Infinity\<close>, as the
  rounding of \<open>2 ^ 1024 - 1\<close> gives.
\<close>

definition minusOne :: "nat \<Rightarrow> number" where
  "minusOne d = (if d = 0 then - 1 else of_nat (toDouble (d - 1)))"

definition parseRowIndex :: "row_label \<Rightarrow> number" where
  "parseRowIndex rowLabel =
     (case rowLabel of
        Num n \<Rightarrow> n
      | Str s \<Rightarrow>
          (case matchFila s of
             Some ds \<Rightarrow> minusOne (parseInt10 ds)
           | None \<Rightarrow>
               (case matchNum s of
                  Some ds \<Rightarrow> of_nat (parseInt10 ds)
                | None \<Rightarrow> - 1)))"




section \<open>Grid builder (MatrixEditor.tsx, gridRows)\<close>

text \<open>\<open>Map<number, Map<number, MatrixCell>>\<close>.\<close>

type_synonym rowMap = "number \<rightharpoonup> (number \<rightharpoonup> MatrixCell)"

definition FIXED_ROW_COUNT :: nat where
  "FIXED_ROW_COUNT = 5"

text \<open>
  The body of \<open>cells.forEach\<close>. The source creates the inner map when the row has none
  and then stores into it in place; the model stores the updated inner map back.
  \<open>Number(cell.col)\<close> is \<open>cell.col\<close>, a number already.
\<close>

definition addCell :: "rowMap \<Rightarrow> MatrixCell \<Rightarrow> rowMap" where
  "addCell rowMap cell =
     (let rIndex = parseRowIndex (fila cell)
      in if rIndex \<ge> 0 \<and> rIndex < of_nat FIXED_ROW_COUNT
         then (let inner = (case rowMap rIndex of None \<Rightarrow> Map.empty | Some m \<Rightarrow> m);
                   cIndex = col cell
               in rowMap(rIndex \<mapsto> inner(cIndex \<mapsto> cell)))
         else rowMap)"

text \<open>\<open>rowMap.get(r)?.get(c)\<close>, then \<open>cell || null\<close> (an object is never falsy).\<close>

definition lookupCell :: "rowMap \<Rightarrow> number \<Rightarrow> number \<Rightarrow> MatrixCell option" where
  "lookupCell rowMap r c = (case rowMap r of None \<Rightarrow> None | Some m \<Rightarrow> m c)"

record grid_row =
  index :: number
  columns :: "MatrixCell option list"

text \<open>
  The two counting loops: \<open>r\<close> runs over \<open>0 .. FIXED_ROW_COUNT - 1\<close> and \<open>c\<close> over
  \<open>0 .. 4\<close>.
\<close>

definition gridRows :: "MatrixCell list \<Rightarrow> grid_row list" where
  "gridRows cells =
     (let rowMap = foldl addCell Map.empty cells
      in map (\<lambda>r. \<lparr>index = of_nat r,
                    columns = map (\<lambda>c. lookupCell rowMap (of_nat r) (of_nat c)) [0..<Suc 4]\<rparr>)
             [0..<FIXED_ROW_COUNT])"

text \<open>\<open>gridRows[r].columns[c]\<close>, read inside the grid only.\<close>

definition gridAt :: "MatrixCell list \<Rightarrow> nat \<Rightarrow> nat \<Rightarrow> MatrixCell option" where
  "gridAt cells r c = columns (gridRows cells ! r) ! c"

text \<open>\<open>cell ? cell.confianza < 0.85 : false\<close>, in the table and in \<open>renderMobileInput\<close>.\<close>

definition isLowConfidence :: "MatrixCell option \<Rightarrow> bool" where
  "isLowConfidence cell =
     (case cell of None \<Rightarrow> False | Some x \<Rightarrow> confianza x < 85 / 100)"

section \<open>Edit mutator (MatrixEditor.tsx, handleValueChange)\<close>

text \<open>\<open>Array.prototype.findIndex\<close>; the source's \<open>-1\<close> is \<open>None\<close>.\<close>

fun findIndex :: "('a \<Rightarrow> bool) \<Rightarrow> 'a list \<Rightarrow> nat option" where
  "findIndex P [] = None"
| "findIndex P (x # xs) = (if P x then Some 0 else map_option Suc (findIndex P xs))"

text \<open>
  The function given to \<open>setCells\<close>: from the previous flat list to the next one.
  The object literal of the new cell sets four fields and leaves the optional ones out.
\<close>

definition handleValueChange :: "MatrixCell list \<Rightarrow> number \<Rightarrow> number \<Rightarrow> string \<Rightarrow> MatrixCell list" where
  "handleValueChange prev rowIndex colIndex newValue =
     (case findIndex (\<lambda>c. parseRowIndex (fila c) = rowIndex \<and> col c = colIndex) prev of
        Some existingIndex \<Rightarrow>
          prev[existingIndex := (prev ! existingIndex)\<lparr>valor := newValue\<rparr>]
      | None \<Rightarrow>
          prev @ [\<lparr>fila = Num rowIndex, col = colIndex, valor = newValue, confianza = 1,
                   ref_id = None, recorte_base64 = None, valor_original = None\<rparr>])"

section \<open>Feedback serializer (MatrixEditor.tsx, handleSendFeedback)\<close>

record Correction =
  c_ref_id :: string
  c_valor_corregido :: string
  c_fila :: number
  c_col :: number
  c_valor_original :: string

text \<open>\<open>currentCell.ref_id || ""\<close>: an absent and an empty id both give the empty string.\<close>

definition refIdOrEmpty :: "string option \<Rightarrow> string" where
  "refIdOrEmpty r = (case r of None \<Rightarrow> [] | Some s \<Rightarrow> if s = [] then [] else s)"

definition correction :: "MatrixCell list \<Rightarrow> MatrixCell \<Rightarrow> Correction" where
  "correction originalCells currentCell =
     (let rIndex = parseRowIndex (fila currentCell);
          cIndex = col currentCell;
          originalCell = find (\<lambda>oc. parseRowIndex (fila oc) = rIndex \<and> col oc = cIndex) originalCells
      in \<lparr>c_ref_id = refIdOrEmpty (ref_id currentCell),
          c_valor_corregido = valor currentCell,
          c_fila = rIndex,
          c_col = cIndex,
          c_valor_original = (case originalCell of None \<Rightarrow> [] | Some oc \<Rightarrow> valor oc)\<rparr>)"

text \<open>The filter only logs a warning for a record without id; it returns \<open>true\<close> always.\<close>

definition validCorrections :: "MatrixCell list \<Rightarrow> MatrixCell list \<Rightarrow> Correction list" where
  "validCorrections cells originalCells =
     filter (\<lambda>c. True) (map (correction originalCells) cells)"

record FeedbackPayload =
  zona_id :: number
  usuario_id :: number
  correcciones :: "Correction list"

text \<open>\<open>Number(data.zona_id) || 1\<close>: zero falls back to 1.\<close>

definition feedbackPayload :: "number \<Rightarrow> MatrixCell list \<Rightarrow> MatrixCell list \<Rightarrow> FeedbackPayload" where
  "feedbackPayload data_zona_id cells originalCells =
     \<lparr>zona_id = (if data_zona_id = 0 then 1 else data_zona_id),
      usuario_id = 99,
      correcciones = validCorrections cells originalCells\<rparr>"

section \<open>Confirmation path (handleConfirm and the application's handleValidationSave)\<close>

datatype AppView = ViewSetup | ViewUpload | ViewEditor | ViewSuccess

datatype NotificationType = NSuccess | NError

text \<open>The part of the application's state that \<open>handleValidationSave\<close> reads or writes.\<close>

record App =
  view :: AppView
  successMsg :: "string option"
  notification :: "(string \<times> NotificationType) option"
  ocrData_id :: "nat option"
  username :: "string option"
  apiUrl :: string

text \<open>The editor's state.\<close>

record Editor =
  cells :: "MatrixCell list"
  originalCells :: "MatrixCell list"
  isSaving :: bool
  isTraining :: bool

text \<open>
  What the network answers, given to the model as an argument: \<open>fetch\<close> rejects with an
  error message, or resolves to a response with a status whose body either reads as
  text or fails to.
\<close>

datatype body = BodyText string | BodyFailed string

datatype fetch_outcome = FetchRejected string | Response nat body

text \<open>\<open>response.ok\<close>.\<close>

definition ok :: "nat \<Rightarrow> bool" where
  "ok status = (200 \<le> status \<and> status \<le> 299)"

text \<open>The \<open>PUT\<close> request: the record id of the URL, the base URL and the JSON body.\<close>

record ValidationRequest =
  req_base :: string
  req_id :: nat
  cambios :: "MatrixCell list"
  comentarios :: string

text \<open>A natural number in a template literal: its decimal digits.\<close>

fun decimal :: "nat \<Rightarrow> string" where
  "decimal n =
     (if n < 10 then [char_of (48 + n)]
      else decimal (n div 10) @ [char_of (48 + n mod 10)])"

declare decimal.simps [simp del]

text \<open>\<open>String.prototype.includes\<close>.\<close>

fun includes_str :: "string \<Rightarrow> string \<Rightarrow> bool" where
  "includes_str [] sub = (sub = [])"
| "includes_str (c # s) sub = (prefix sub (c # s) \<or> includes_str s sub)"

text \<open>The \<open>catch\<close> block, given the message of the error caught.\<close>

definition catchValidation :: "App \<Rightarrow> string \<Rightarrow> App" where
  "catchValidation app message =
     (let displayMsg = (if includes_str message ''Failed to fetch''
                        then ''Error de conexi'' @ [CHR 0xF3] @ ''n.''
                        else message)
      in app\<lparr>notification := Some (''Error al guardar: '' @ displayMsg, NError)\<rparr>)"

text \<open>
  The request \<open>handleValidationSave\<close> sends: the \<open>payload\<close> object with the address
  it goes to. \<open>user?.username || 'WebClient'\<close> falls back for an absent and for an empty
  name.
\<close>

definition validationRequest :: "App \<Rightarrow> nat \<Rightarrow> MatrixCell list \<Rightarrow> ValidationRequest" where
  "validationRequest app i validatedCells =
     \<lparr>req_base = apiUrl app, req_id = i, cambios = validatedCells,
      comentarios = ''Validado por '' @
        (case username app of
           None \<Rightarrow> ''WebClient''
         | Some u \<Rightarrow> if u = [] then ''WebClient'' else u)\<rparr>"

text \<open>
  \<open>handleValidationSave\<close>: the new application state and the request sent, if any.
  Without a loaded document it returns at once.
\<close>

definition handleValidationSave ::
    "App \<Rightarrow> MatrixCell list \<Rightarrow> fetch_outcome \<Rightarrow> App \<times> ValidationRequest option" where
  "handleValidationSave app validatedCells outcome =
     (case ocrData_id app of
        None \<Rightarrow> (app, None)
      | Some i \<Rightarrow>
          (let payload = validationRequest app i validatedCells
           in (case outcome of
                 FetchRejected message \<Rightarrow> (catchValidation app message, Some payload)
               | Response status b \<Rightarrow>
                   if ok status
                   then (app\<lparr>notification :=
                                Some (''Matriz validada y guardada correctamente'', NSuccess),
                              view := ViewSuccess,
                              successMsg :=
                                Some ([CHR 0xA1] @ ''Matriz validada y guardada correctamente!'')\<rparr>,
                         Some payload)
                   else (case b of
                           BodyText errText \<Rightarrow>
                             (catchValidation app
                                (''Fall'' @ [CHR 0xF3] @ '' validaci'' @ [CHR 0xF3] @ ''n ('' @
                                 decimal status @ ''): '' @ errText),
                              Some payload)
                         | BodyFailed message \<Rightarrow>
                             (catchValidation app message, Some payload)))))"

text \<open>
  \<open>handleConfirm\<close>: \<open>onSave(cells)\<close> is \<open>handleValidationSave\<close>, which catches every
  error itself; the \<open>finally\<close> resets \<open>isSaving\<close>.
\<close>

definition handleConfirm ::
    "Editor \<Rightarrow> App \<Rightarrow> fetch_outcome \<Rightarrow> Editor \<times> App \<times> ValidationRequest option" where
  "handleConfirm ed app outcome =
     (let (app', req) = handleValidationSave app (cells (ed\<lparr>isSaving := True\<rparr>)) outcome
      in (ed\<lparr>isSaving := False\<rparr>, app', req))"

section \<open>The label formats of the specification\<close>




text \<open>A cell parses to row \<open>r\<close> and column \<open>c\<close> of the grid.\<close>

definition atCoord :: "nat \<Rightarrow> nat \<Rightarrow> MatrixCell \<Rightarrow> bool" where
  "atCoord r c x = (parseRowIndex (fila x) = of_nat r \<and> col x = of_nat c)"

text \<open>Two cells parse to the same row and column.\<close>

definition sameCoord :: "MatrixCell \<Rightarrow> MatrixCell \<Rightarrow> bool" where
  "sameCoord x y = (parseRowIndex (fila x) = parseRowIndex (fila y) \<and> col x = col y)"

text \<open>The request failed: a network error, or a response whose status is not 2xx.\<close>

definition failed :: "fetch_outcome \<Rightarrow> bool" where
  "failed outcome = (case outcome of FetchRejected m \<Rightarrow> True | Response status b \<Rightarrow> \<not> ok status)"

text \<open>
  The error a failed request ends in, by its message: the reason the fetch was rejected
  with; for a response that is not 2xx, its status and its body; the reason the body
  could not be read, when it could not.
\<close>

definition errorMessage :: "fetch_outcome \<Rightarrow> string" where
  "errorMessage outcome =
     (case outcome of
        FetchRejected m \<Rightarrow> m
      | Response status b \<Rightarrow>
          (case b of
             BodyText t \<Rightarrow>
               ''Fall'' @ [CHR 0xF3] @ '' validaci'' @ [CHR 0xF3] @ ''n ('' @ decimal status @
               ''): '' @ t
           | BodyFailed m \<Rightarrow> m))"

section \<open>Sample data\<close>

definition mkCell :: "row_label \<Rightarrow> number \<Rightarrow> string \<Rightarrow> number \<Rightarrow> string option \<Rightarrow> MatrixCell" where
  "mkCell f c v k i =
     \<lparr>fila = f, col = c, valor = v, confianza = k, ref_id = i,
      recorte_base64 = None, valor_original = None\<rparr>"

definition sampleApp :: App where
  "sampleApp = \<lparr>view = ViewEditor, successMsg = None, notification = None,
                 ocrData_id = Some 17, username = Some ''buzo1'', apiUrl = ''https://api''\<rparr>"

definition sampleEditor :: "MatrixCell list \<Rightarrow> Editor" where
  "sampleEditor cs = \<lparr>cells = cs, originalCells = cs, isSaving = False, isTraining = False\<rparr>"

definition sampleCells :: "MatrixCell list" where
  "sampleCells =
     [mkCell (Str ''Fila 1'') 2 ''5'' (6 / 10) (Some ''R0_C2''),
      mkCell (Str ''Fila 8'') 1 ''X'' (9 / 10) (Some ''R7_C1''),
      mkCell (Str ''0'') 2 ''8'' (99 / 100) None]"

definition sampleCellsNoDup :: "MatrixCell list" where
  "sampleCellsNoDup =
     [mkCell (Str ''Fila 1'') 2 ''5'' (6 / 10) (Some ''R0_C2''),
      mkCell (Str ''Fila 8'') 1 ''X'' (9 / 10) (Some ''R7_C1''),
      mkCell (Num 3) 4 ''8'' (99 / 100) None]"

section \<open>The row-label parser: characters, digits and matching\<close>

lemma canonicalize_other: "c \<notin> set ''abcdefghijklmnopqrstuvwxyz'' \<Longrightarrow> canonicalize c = c"
  by (simp add: canonicalize_def)

lemma isDigit_not_lower: "isDigit c \<Longrightarrow> c \<notin> set ''abcdefghijklmnopqrstuvwxyz''"
  by (auto simp: isDigit_def)

lemma isDigit_canonicalize: "isDigit c \<Longrightarrow> canonicalize c = c"
  by (rule canonicalize_other) (rule isDigit_not_lower)

lemma isDigit_not_F: "isDigit c \<Longrightarrow> canonicalize c \<noteq> CHR ''F''"
  by (auto simp: isDigit_canonicalize isDigit_def)

lemma isDigit_not_isSpace: "isDigit c \<Longrightarrow> \<not> isSpace c"
  by (auto simp: isDigit_def isSpace_def)

lemma matchFilaAt_Some:
  assumes "map canonicalize f = ''FILA''" "list_all isSpace ws" "ds \<noteq> []" "list_all isDigit ds"
    and "post = [] \<or> \<not> isDigit (hd post)"
  shows "matchFilaAt (f @ ws @ ds @ post) = Some ds"
proof -
  have "length (map canonicalize f) = length ''FILA''" using assms(1) by simp
  then have len: "length f = 4" by simp
  obtain d ds' where ds: "ds = d # ds'" using assms(3) by (cases ds) auto
  have hd: "\<not> isSpace d" using assms(4) ds by (simp add: isDigit_not_isSpace)
  have dw: "dropWhile isSpace (ws @ ds @ post) = ds @ post"
    using assms(2) hd ds by (induction ws) simp_all
  have tw: "takeWhile isDigit (ds @ post) = ds"
  proof (cases post)
    case Nil
    then show ?thesis using assms(4) by (simp add: list_all_iff)
  next
    case (Cons p ps)
    then have "\<not> isDigit p" using assms(5) by simp
    then show ?thesis using assms(4) Cons by (simp add: list_all_iff)
  qed
  show ?thesis using len assms(1,3) by (simp add: matchFilaAt_def dw tw)
qed

lemma matchFilaAt_imp_matchFila: "matchFilaAt s = Some ds \<Longrightarrow> matchFila s = Some ds"
  by (cases s) (simp_all add: matchFilaAt_def)

lemma matchFila_digits: "list_all isDigit s \<Longrightarrow> matchFila s = None"
  by (induction s) (simp_all add: matchFilaAt_def isDigit_not_F)

lemma isDigit_char_of: "(d::nat) < 10 \<Longrightarrow> isDigit (char_of (48 + d))"
  by (simp add: isDigit_def)

lemma digitVal_char_of: "d < 10 \<Longrightarrow> digitVal (char_of (48 + d)) = d"
  by (simp add: digitVal_def)

lemma digitsValue_snoc: "digitsValue (ds @ [c]) = 10 * digitsValue ds + digitVal c"
  by (simp add: digitsValue_def)

lemma digitsValue_decimal: "digitsValue (decimal n) = n"
proof (induction n rule: decimal.induct)
  case (1 n)
  show ?case
  proof (cases "n < 10")
    case True
    then show ?thesis
      by (subst decimal.simps) (simp add: digitsValue_def digitVal_char_of)
  next
    case False
    then have "digitsValue (decimal (n div 10)) = n div 10" using 1 by simp
    then show ?thesis using False
      by (subst decimal.simps) (simp add: digitsValue_snoc digitVal_char_of)
  qed
qed

lemma decimal_digits: "list_all isDigit (decimal n)"
proof (induction n rule: decimal.induct)
  case (1 n)
  show ?case
  proof (cases "n < 10")
    case True
    then show ?thesis by (subst decimal.simps) (simp add: isDigit_char_of)
  next
    case False
    then have "list_all isDigit (decimal (n div 10))" using 1 by simp
    then show ?thesis using False
      by (subst decimal.simps) (simp add: isDigit_char_of)
  qed
qed

lemma decimal_nonempty: "decimal n \<noteq> []"
  by (subst decimal.simps) simp

lemma digitsValue_zeros: "digitsValue (replicate k (CHR ''0'') @ ds) = digitsValue ds"
proof -
  have "foldl (\<lambda>a c. 10 * a + digitVal c) 0 (replicate k (CHR ''0'')) = 0"
    by (induction k) (simp_all add: digitVal_def)
  then show ?thesis by (simp add: digitsValue_def)
qed

lemma bitLength_le: "n < 2 ^ k \<Longrightarrow> bitLength n \<le> k"
proof (induction k arbitrary: n)
  case 0
  then show ?case by (simp add: bitLength.simps)
next
  case (Suc k)
  show ?case
  proof (cases "n = 0")
    case True
    then show ?thesis by (simp add: bitLength.simps)
  next
    case False
    from Suc.prems have "n div 2 < 2 ^ k" by simp
    then have "bitLength (n div 2) \<le> k" by (rule Suc.IH)
    with False show ?thesis by (subst bitLength.simps) simp
  qed
qed

lemma toDouble_small: "n < 2 ^ 53 \<Longrightarrow> toDouble n = n"
proof -
  assume n: "n < 2 ^ 53"
  then have "bitLength n \<le> 53" by (rule bitLength_le)
  with n show ?thesis by (simp add: toDouble_def)
qed

lemma toDouble_2_53: "toDouble 9007199254740992 = 9007199254740992"
proof -
  have "bitLength 9007199254740992 = 54" by (simp add: bitLength.simps)
  then show ?thesis by (simp add: toDouble_def)
qed

lemma toDouble_2_53_1: "toDouble 9007199254740993 = 9007199254740992"
proof -
  have "bitLength 9007199254740993 = 54" by (simp add: bitLength.simps)
  then show ?thesis by (simp add: toDouble_def)
qed

lemma toDouble_exact: "n \<le> 2 ^ 53 \<Longrightarrow> toDouble n = n"
proof (cases "n = 9007199254740992")
  case True
  then show ?thesis by (simp only: toDouble_2_53)
next
  case False
  assume "n \<le> 2 ^ 53"
  with False have "n < 2 ^ 53" by simp
  then show ?thesis by (rule toDouble_small)
qed

lemma minusOne_exact: "n \<le> 2 ^ 53 \<Longrightarrow> minusOne n = of_nat n - 1"
proof (cases "n = 0")
  case True
  then show ?thesis by (simp add: minusOne_def)
next
  case False
  assume "n \<le> 2 ^ 53"
  with False have "n - 1 < 2 ^ 53" by simp
  then have "toDouble (n - 1) = n - 1" by (rule toDouble_small)
  with False show ?thesis by (simp add: minusOne_def)
qed

lemma parseInt10_exact: "digitsValue ds \<le> 2 ^ 53 \<Longrightarrow> parseInt10 ds = digitsValue ds"
  by (simp add: parseInt10_def toDouble_exact)












section \<open>The row-label parser: results\<close>


text \<open>The parser on labels written with the decimal digits of a number.\<close>

lemma parseRowIndex_fila_digits:
  assumes "map canonicalize f = ''FILA''" "list_all isSpace ws"
  shows "parseRowIndex (Str (f @ ws @ replicate k (CHR ''0'') @ decimal n)) =
           minusOne (toDouble n)"
proof -
  let ?ds = "replicate k (CHR ''0'') @ decimal n"
  have ne: "?ds \<noteq> []" by (simp add: decimal_nonempty)
  have dg: "list_all isDigit ?ds" by (simp add: decimal_digits) (simp add: list_all_iff isDigit_def)
  have "matchFilaAt (f @ ws @ ?ds @ []) = Some ?ds"
    using assms ne dg by (intro matchFilaAt_Some) simp_all
  then have "matchFila (f @ ws @ ?ds) = Some ?ds"
    using matchFilaAt_imp_matchFila by fastforce
  then show ?thesis
    by (simp add: parseRowIndex_def parseInt10_def digitsValue_zeros digitsValue_decimal)
qed

lemma parseRowIndex_digits:
  "parseRowIndex (Str (replicate k (CHR ''0'') @ decimal n)) = of_nat (toDouble n)"
proof -
  let ?ds = "replicate k (CHR ''0'') @ decimal n"
  have ne: "?ds \<noteq> []" by (simp add: decimal_nonempty)
  have dg: "list_all isDigit ?ds" by (simp add: decimal_digits) (simp add: list_all_iff isDigit_def)
  have "matchFila ?ds = None" using dg by (rule matchFila_digits)
  moreover have "matchNum ?ds = Some ?ds" using ne dg by (simp add: matchNum_def)
  ultimately show ?thesis
    by (simp add: parseRowIndex_def parseInt10_def digitsValue_zeros digitsValue_decimal)
qed

lemma decimal_2_53_1: "decimal 9007199254740993 = ''9007199254740993''"
  by (simp add: decimal.simps char_of_eq_iff)

text \<open>
  C1, as amended. For \<open>n\<close> up to \<open>2 ^ 53\<close>, the integers a double holds exactly: a label
  made of the letters of \<open>Fila\<close> in any case, any whitespace and the decimal digits of
  \<open>n\<close> (leading zeros allowed) parses to \<open>n - 1\<close>, and a label made only of the decimal
  digits of \<open>n\<close> parses to \<open>n\<close> itself. A number is returned as it is. So \<open>Fila 1\<close>
  parses to 0 and \<open>3\<close> parses to 3.
\<close>

theorem parseRowIndex_labels:
  "(\<forall>f ws k n. map canonicalize f = ''FILA'' \<and> list_all isSpace ws \<and> n \<le> 2 ^ 53 \<longrightarrow>
       parseRowIndex (Str (f @ ws @ replicate k (CHR ''0'') @ decimal n)) = of_nat n - 1) \<and>
   (\<forall>k n. n \<le> 2 ^ 53 \<longrightarrow>
       parseRowIndex (Str (replicate k (CHR ''0'') @ decimal n)) = of_nat n) \<and>
   (\<forall>x. parseRowIndex (Num x) = x) \<and>
   parseRowIndex (Str ''Fila 1'') = 0 \<and>
   parseRowIndex (Str ''3'') = 3"
proof (intro conjI allI impI)
  fix f ws :: string and k n :: nat
  assume h: "map canonicalize f = ''FILA'' \<and> list_all isSpace ws \<and> n \<le> 2 ^ 53"
  then have "parseRowIndex (Str (f @ ws @ replicate k (CHR ''0'') @ decimal n)) =
      minusOne (toDouble n)" by (intro parseRowIndex_fila_digits) simp_all
  with h show "parseRowIndex (Str (f @ ws @ replicate k (CHR ''0'') @ decimal n)) = of_nat n - 1"
    by (simp add: toDouble_exact minusOne_exact)
next
  fix k n :: nat
  assume "n \<le> 2 ^ 53"
  then show "parseRowIndex (Str (replicate k (CHR ''0'') @ decimal n)) = of_nat n"
    by (simp add: parseRowIndex_digits toDouble_exact)
next
  fix x show "parseRowIndex (Num x) = x" by (simp add: parseRowIndex_def)
next
  show "parseRowIndex (Str ''Fila 1'') = 0"
    by (simp add: parseRowIndex_def matchFilaAt_def canonicalize_def isDigit_def isSpace_def
        parseInt10_exact minusOne_exact digitsValue_def digitVal_def)
next
  show "parseRowIndex (Str ''3'') = 3"
    by (simp add: parseRowIndex_def matchFilaAt_def matchNum_def canonicalize_def isDigit_def
        parseInt10_exact minusOne_exact digitsValue_def digitVal_def)
qed

theorem parseRowIndex_labels_witness:
  "map canonicalize ''fIlA'' = ''FILA'' \<and> list_all isSpace [CHR 0x20, CHR 0x09] \<and>
   (12::nat) \<le> 2 ^ 53 \<and>
   parseRowIndex (Str (''fIlA'' @ [CHR 0x20, CHR 0x09] @ replicate 2 (CHR ''0'') @ decimal 12)) = 11 \<and>
   parseRowIndex (Str (replicate 2 (CHR ''0'') @ decimal 12)) = 12"
proof -
  have h: "map canonicalize ''fIlA'' = ''FILA'' \<and> list_all isSpace [CHR 0x20, CHR 0x09] \<and>
      (12::nat) \<le> 2 ^ 53"
    by (simp add: canonicalize_def isSpace_def)
  then have b: "(12::nat) \<le> 2 ^ 53" by simp
  note t = parseRowIndex_labels [THEN conjunct1, rule_format,
      of "''fIlA''" "[CHR 0x20, CHR 0x09]" 12 2]
  note u = parseRowIndex_labels [THEN conjunct2, THEN conjunct1, rule_format, of 12 2]
  from t [OF h] u [OF b] h show ?thesis by simp
qed

text \<open>
  The claim as it stands fails beyond \<open>2 ^ 53\<close>, where \<open>parseInt\<close> and the subtraction
  round: the digits of \<open>2 ^ 53 + 1\<close> parse to \<open>2 ^ 53\<close>, and after \<open>Fila\<close> to
  \<open>2 ^ 53 - 1\<close>.
\<close>

theorem parseRowIndex_labels_counterexample:
  "parseRowIndex (Str (decimal 9007199254740993)) = 9007199254740992 \<and>
   parseRowIndex (Str (decimal 9007199254740993)) \<noteq> of_nat 9007199254740993 \<and>
   parseRowIndex (Str (''Fila '' @ decimal 9007199254740993)) = 9007199254740991 \<and>
   parseRowIndex (Str (''Fila '' @ decimal 9007199254740993)) \<noteq> of_nat 9007199254740993 - 1 \<and>
   decimal 9007199254740993 = ''9007199254740993''"
proof -
  have a: "parseRowIndex (Str ''9007199254740993'') = 9007199254740992"
    using parseRowIndex_digits [of 0 9007199254740993]
    by (simp add: toDouble_2_53_1 decimal_2_53_1)
  have "map canonicalize ''Fila'' = ''FILA''" "list_all isSpace '' ''"
    by (simp_all add: canonicalize_def isSpace_def)
  from parseRowIndex_fila_digits [OF this, of 0 9007199254740993]
  have b: "parseRowIndex (Str ''Fila 9007199254740993'') = 9007199254740991"
    using minusOne_exact [of 9007199254740992] by (simp add: toDouble_2_53_1 decimal_2_53_1)
  show ?thesis by (simp add: a b decimal_2_53_1)
qed




section \<open>The grid builder\<close>

lemma sample_rows:
  "parseRowIndex (fila (sampleCells ! 0)) = 0"
  "parseRowIndex (fila (sampleCells ! 1)) = 7"
  "parseRowIndex (fila (sampleCells ! 2)) = 0"
  by (simp_all add: sampleCells_def mkCell_def parseRowIndex_def matchFilaAt_def matchNum_def
      canonicalize_def isDigit_def isSpace_def parseInt10_exact minusOne_exact digitsValue_def digitVal_def)

lemma sample_rows_nodup:
  "map (\<lambda>x. (parseRowIndex (fila x), col x)) sampleCellsNoDup = [(0, 2), (7, 1), (3, 4)]"
  by (simp add: sampleCellsNoDup_def mkCell_def parseRowIndex_def matchFilaAt_def matchNum_def
      canonicalize_def isDigit_def isSpace_def parseInt10_exact minusOne_exact digitsValue_def digitVal_def)

lemma lookupCell_addCell:
  "lookupCell (addCell m x) r c =
     (if parseRowIndex (fila x) = r \<and> col x = c \<and> 0 \<le> r \<and> r < of_nat FIXED_ROW_COUNT
      then Some x else lookupCell m r c)"
  by (simp add: lookupCell_def addCell_def Let_def split: option.splits)

lemma lookupCell_foldl:
  "0 \<le> r \<Longrightarrow> r < of_nat FIXED_ROW_COUNT \<Longrightarrow>
   lookupCell (foldl addCell m cs) r c =
     (case find (\<lambda>x. parseRowIndex (fila x) = r \<and> col x = c) (rev cs) of
        None \<Rightarrow> lookupCell m r c
      | Some x \<Rightarrow> Some x)"
  by (induction cs rule: rev_induct) (simp_all add: lookupCell_addCell)

lemma lookupCell_empty: "lookupCell Map.empty r c = None"
  by (simp add: lookupCell_def)

lemma length_gridRows: "length (gridRows cs) = 5"
  by (simp add: gridRows_def FIXED_ROW_COUNT_def)

lemma gridAt_find:
  assumes "r < 5" "c < 5"
  shows "gridAt cs r c = find (atCoord r c) (rev cs)"
proof -
  have r: "(0::rat) \<le> of_nat r" "(of_nat r :: rat) < of_nat FIXED_ROW_COUNT"
    using assms(1) by (simp_all add: FIXED_ROW_COUNT_def)
  have "gridAt cs r c = lookupCell (foldl addCell Map.empty cs) (of_nat r) (of_nat c)"
    using assms by (simp add: gridAt_def gridRows_def FIXED_ROW_COUNT_def Let_def del: upt_Suc)
  also have "\<dots> = find (atCoord r c) (rev cs)"
    unfolding lookupCell_foldl [OF r] atCoord_def [abs_def]
    by (simp add: lookupCell_empty split: option.splits)
  finally show ?thesis .
qed

lemma grid_entries:
  assumes "row \<in> set (gridRows cs)" "y \<in> set (columns row)"
  shows "\<exists>r<5. \<exists>c<5. y = gridAt cs r c"
proof -
  from assms(1) obtain r where r: "r < 5"
    and row: "row = gridRows cs ! r"
    by (metis in_set_conv_nth length_gridRows)
  have len: "length (columns (gridRows cs ! r)) = 5"
    using r by (simp add: gridRows_def FIXED_ROW_COUNT_def Let_def del: upt_Suc)
  from assms(2) obtain c where "c < 5" "y = columns row ! c"
    unfolding row using len by (metis in_set_conv_nth)
  then show ?thesis using r row by (auto simp: gridAt_def)
qed

lemma find_rev_last:
  "find P (rev cs) = Some x \<longleftrightarrow>
     (\<exists>k<length cs. cs ! k = x \<and> P x \<and> (\<forall>l. k < l \<and> l < length cs \<longrightarrow> \<not> P (cs ! l)))"
proof (induction cs rule: rev_induct)
  case Nil
  then show ?case by simp
next
  case (snoc a cs)
  show ?case
  proof (cases "P a")
    case True
    have "(\<exists>k<length (cs @ [a]). (cs @ [a]) ! k = x \<and> P x \<and>
            (\<forall>l. k < l \<and> l < length (cs @ [a]) \<longrightarrow> \<not> P ((cs @ [a]) ! l))) \<longleftrightarrow> a = x"
    proof
      assume "\<exists>k<length (cs @ [a]). (cs @ [a]) ! k = x \<and> P x \<and>
            (\<forall>l. k < l \<and> l < length (cs @ [a]) \<longrightarrow> \<not> P ((cs @ [a]) ! l))"
      then obtain k where k: "k < length (cs @ [a])" "(cs @ [a]) ! k = x"
        "\<forall>l. k < l \<and> l < length (cs @ [a]) \<longrightarrow> \<not> P ((cs @ [a]) ! l)" by blast
      have "\<not> k < length cs"
      proof
        assume "k < length cs"
        then have "k < length cs \<and> length cs < length (cs @ [a])" by simp
        then have "\<not> P ((cs @ [a]) ! length cs)" by (rule k(3) [rule_format])
        with True show False by simp
      qed
      with k(1) have "k = length cs" by simp
      with k(2) show "a = x" by simp
    next
      assume "a = x"
      with True show "\<exists>k<length (cs @ [a]). (cs @ [a]) ! k = x \<and> P x \<and>
            (\<forall>l. k < l \<and> l < length (cs @ [a]) \<longrightarrow> \<not> P ((cs @ [a]) ! l))"
        by (intro exI [of _ "length cs"]) auto
    qed
    with True show ?thesis by auto
  next
    case False
    have "(\<exists>k<length (cs @ [a]). (cs @ [a]) ! k = x \<and> P x \<and>
            (\<forall>l. k < l \<and> l < length (cs @ [a]) \<longrightarrow> \<not> P ((cs @ [a]) ! l))) \<longleftrightarrow>
          (\<exists>k<length cs. cs ! k = x \<and> P x \<and> (\<forall>l. k < l \<and> l < length cs \<longrightarrow> \<not> P (cs ! l)))"
      (is "?L \<longleftrightarrow> ?R")
    proof
      assume ?L
      then obtain k where k: "k < length (cs @ [a])" "(cs @ [a]) ! k = x" "P x"
        "\<forall>l. k < l \<and> l < length (cs @ [a]) \<longrightarrow> \<not> P ((cs @ [a]) ! l)" by blast
      have kl: "k < length cs"
      proof (rule ccontr)
        assume "\<not> k < length cs"
        with k(1) have "k = length cs" by simp
        with k(2,3) False show False by simp
      qed
      have "\<forall>l. k < l \<and> l < length cs \<longrightarrow> \<not> P (cs ! l)"
      proof (intro allI impI)
        fix l assume l: "k < l \<and> l < length cs"
        with k(4) have "\<not> P ((cs @ [a]) ! l)" by simp
        with l show "\<not> P (cs ! l)" by (simp add: nth_append)
      qed
      with kl k(2,3) show ?R by (auto simp: nth_append)
    next
      assume ?R
      then obtain k where k: "k < length cs" "cs ! k = x" "P x"
        "\<forall>l. k < l \<and> l < length cs \<longrightarrow> \<not> P (cs ! l)" by blast
      have "\<forall>l. k < l \<and> l < length (cs @ [a]) \<longrightarrow> \<not> P ((cs @ [a]) ! l)"
        using k(4) False by (auto simp: nth_append)
      with k(1,2,3) show ?L by (intro exI [of _ k]) (auto simp: nth_append)
    qed
    with False snoc show ?thesis by simp
  qed
qed

lemma catchValidation_fields:
  "view (catchValidation app m) = view app"
  "successMsg (catchValidation app m) = successMsg app"
  "ocrData_id (catchValidation app m) = ocrData_id app"
  "username (catchValidation app m) = username app"
  "apiUrl (catchValidation app m) = apiUrl app"
  "notification (catchValidation app m) =
     Some (''Error al guardar: '' @
           (if includes_str m ''Failed to fetch'' then ''Error de conexi'' @ [CHR 0xF3] @ ''n.''
            else m), NError)"
  by (simp_all add: catchValidation_def Let_def)

lemma handleValidationSave_request:
  "ocrData_id app = Some i \<Longrightarrow>
   snd (handleValidationSave app cs outcome) = Some (validationRequest app i cs)"
  by (simp add: handleValidationSave_def Let_def split: fetch_outcome.splits body.splits)

lemma handleValidationSave_failed:
  assumes "ocrData_id app = Some i" "failed outcome"
  shows "fst (handleValidationSave app cs outcome) = catchValidation app (errorMessage outcome)"
  using assms
  by (simp add: handleValidationSave_def failed_def errorMessage_def Let_def
      split: fetch_outcome.splits body.splits)

lemma handleConfirm_parts:
  "handleConfirm ed app outcome =
     (ed\<lparr>isSaving := False\<rparr>, fst (handleValidationSave app (cells ed) outcome),
      snd (handleValidationSave app (cells ed) outcome))"
  by (simp add: handleConfirm_def split: prod.splits)


lemma atCoord_unique:
  "atCoord r c x \<Longrightarrow> atCoord r' c' x \<Longrightarrow> r' = r \<and> c' = c"
  by (simp add: atCoord_def)

lemma gridAt_Some_atCoord:
  assumes "r < 5" "c < 5" "gridAt cs r c = Some x"
  shows "atCoord r c x \<and> x \<in> set cs"
proof -
  from assms have "find (atCoord r c) (rev cs) = Some x" by (simp add: gridAt_find)
  then obtain k where "k < length cs" "cs ! k = x" "atCoord r c x"
    unfolding find_rev_last by blast
  then show ?thesis by auto
qed

lemma grid_member:
  assumes "row \<in> set (gridRows cs)" "Some x \<in> set (columns row)"
  obtains r c where "r < 5" "c < 5" "gridAt cs r c = Some x" "atCoord r c x"
proof -
  from grid_entries [OF assms] obtain r c where rc: "r < 5" "c < 5" "Some x = gridAt cs r c"
    by blast
  then have "atCoord r c x" using gridAt_Some_atCoord [of r c cs x] by simp
  with rc show ?thesis using that by simp
qed

text \<open>
  C2. A cell of the flat list whose parsed row index lies outside \<open>[0, 4]\<close> is in none
  of the rows of the grid; the request that confirm sends still carries the whole flat
  list, this cell included, and confirm leaves the flat list as it was.
\<close>

theorem out_of_range_row_not_in_grid:
  assumes "x \<in> set (cells ed)"
    and "\<not> (0 \<le> parseRowIndex (fila x) \<and> parseRowIndex (fila x) \<le> 4)"
    and "ocrData_id app = Some i"
    and "handleConfirm ed app outcome = (ed', app', req)"
  shows "(\<forall>row \<in> set (gridRows (cells ed)). Some x \<notin> set (columns row)) \<and>
         (\<exists>r. req = Some r \<and> cambios r = cells ed \<and> x \<in> set (cambios r)) \<and>
         cells ed' = cells ed"
proof (intro conjI ballI)
  fix row assume row: "row \<in> set (gridRows (cells ed))"
  show "Some x \<notin> set (columns row)"
  proof
    assume "Some x \<in> set (columns row)"
    with row obtain r c where "r < 5" "atCoord r c x" by (rule grid_member)
    then have "parseRowIndex (fila x) = of_nat r" "(of_nat r :: rat) \<le> 4"
      by (simp_all add: atCoord_def)
    with assms(2) show False by simp
  qed
next
  from assms(4) have "req = snd (handleValidationSave app (cells ed) outcome)"
    unfolding handleConfirm_parts by simp
  then have "req = Some (validationRequest app i (cells ed))"
    using assms(3) by (simp add: handleValidationSave_request)
  with assms(1) show "\<exists>r. req = Some r \<and> cambios r = cells ed \<and> x \<in> set (cambios r)"
    by (simp add: validationRequest_def)
next
  from assms(4) show "cells ed' = cells ed" unfolding handleConfirm_parts by auto
qed

theorem out_of_range_row_not_in_grid_witness:
  "sampleCells ! 1 \<in> set (cells (sampleEditor sampleCells)) \<and>
   parseRowIndex (fila (sampleCells ! 1)) = 7 \<and>
   ocrData_id sampleApp = Some 17 \<and>
   Some (sampleCells ! 1) \<notin> set (concat (map columns (gridRows (cells (sampleEditor sampleCells))))) \<and>
   (\<exists>r. snd (snd (handleConfirm (sampleEditor sampleCells) sampleApp (FetchRejected ''Failed to fetch'')))
          = Some r \<and> sampleCells ! 1 \<in> set (cambios r))"
proof -
  let ?hc = "handleConfirm (sampleEditor sampleCells) sampleApp (FetchRejected ''Failed to fetch'')"
  have h1: "sampleCells ! 1 \<in> set (cells (sampleEditor sampleCells))"
    by (simp add: sampleEditor_def sampleCells_def)
  have h2: "\<not> (0 \<le> parseRowIndex (fila (sampleCells ! 1)) \<and> parseRowIndex (fila (sampleCells ! 1)) \<le> 4)"
    by (simp only: sample_rows) simp
  have h3: "ocrData_id sampleApp = Some 17" by (simp add: sampleApp_def)
  have h4: "?hc = (fst ?hc, fst (snd ?hc), snd (snd ?hc))" by simp
  from out_of_range_row_not_in_grid [OF h1 h2 h3 h4] h1 h3 show ?thesis
    by (simp only: sample_rows) auto
qed

text \<open>
  C5. When the cells at positions \<open>i < j\<close> of the flat list both parse to the coordinate
  \<open>(r, c)\<close> inside the grid, the grid holds at \<open>(r, c)\<close> the last cell of the list that
  parses to \<open>(r, c)\<close>, which sits at \<open>j\<close> or later; the earlier cell, unless it is equal
  to that last one in every field, is nowhere in the grid.
\<close>

theorem duplicates_last_wins:
  assumes "i < j" "j < length cs" "atCoord r c (cs ! i)" "atCoord r c (cs ! j)" "r < 5" "c < 5"
  shows "\<exists>k. j \<le> k \<and> k < length cs \<and> atCoord r c (cs ! k) \<and>
             (\<forall>l. k < l \<and> l < length cs \<longrightarrow> \<not> atCoord r c (cs ! l)) \<and>
             gridAt cs r c = Some (cs ! k) \<and>
             (cs ! i \<noteq> cs ! k \<longrightarrow> (\<forall>row \<in> set (gridRows cs). Some (cs ! i) \<notin> set (columns row)))"
proof -
  have "cs ! j \<in> set (rev cs)" using assms(2) by simp
  with assms(4) have "find (atCoord r c) (rev cs) \<noteq> None"
    unfolding find_None_iff by blast
  then obtain x where x: "find (atCoord r c) (rev cs) = Some x" by blast
  then obtain k where k: "k < length cs" "cs ! k = x" "atCoord r c x"
    "\<forall>l. k < l \<and> l < length cs \<longrightarrow> \<not> atCoord r c (cs ! l)"
    unfolding find_rev_last by blast
  have jk: "j \<le> k"
  proof (rule ccontr)
    assume "\<not> j \<le> k"
    then have "k < j \<and> j < length cs" using assms(2) by simp
    then have "\<not> atCoord r c (cs ! j)" by (rule k(4) [rule_format])
    with assms(4) show False by simp
  qed
  have g: "gridAt cs r c = Some (cs ! k)" using x k(2) assms(5,6) by (simp add: gridAt_find)
  have "\<forall>row \<in> set (gridRows cs). Some (cs ! i) \<notin> set (columns row)" if ne: "cs ! i \<noteq> cs ! k"
  proof (intro ballI notI)
    fix row assume "row \<in> set (gridRows cs)" "Some (cs ! i) \<in> set (columns row)"
    then obtain r' c' where rc: "r' < 5" "c' < 5" "gridAt cs r' c' = Some (cs ! i)"
      "atCoord r' c' (cs ! i)" by (rule grid_member)
    from atCoord_unique [OF assms(3) rc(4)] have "r' = r" "c' = c" by simp_all
    with rc(3) g ne show False by simp
  qed
  with jk k g show ?thesis by blast
qed

theorem duplicates_last_wins_witness:
  "atCoord 0 2 (sampleCells ! 0) \<and> atCoord 0 2 (sampleCells ! 2) \<and>
   gridAt sampleCells 0 2 = Some (sampleCells ! 2) \<and>
   Some (sampleCells ! 0) \<notin> set (concat (map columns (gridRows sampleCells)))"
proof -
  have a0: "atCoord 0 2 (sampleCells ! 0)"
    by (simp add: atCoord_def sample_rows) (simp add: sampleCells_def mkCell_def)
  have a2: "atCoord 0 2 (sampleCells ! 2)"
    by (simp add: atCoord_def sample_rows) (simp add: sampleCells_def mkCell_def)
  have len: "length sampleCells = 3" by (simp add: sampleCells_def)
  have ne: "sampleCells ! 0 \<noteq> sampleCells ! 2" by (simp add: sampleCells_def mkCell_def)
  have j: "2 < length sampleCells" by (simp add: len)
  have ij: "(0::nat) < 2" and r5: "(0::nat) < 5" and c5: "(2::nat) < 5" by simp_all
  from duplicates_last_wins [OF ij j a0 a2 r5 c5] obtain k where
    k: "2 \<le> k" "k < length sampleCells" "gridAt sampleCells 0 2 = Some (sampleCells ! k)"
    "sampleCells ! 0 \<noteq> sampleCells ! k \<longrightarrow>
       (\<forall>row \<in> set (gridRows sampleCells). Some (sampleCells ! 0) \<notin> set (columns row))"
    by auto
  from k(1,2) have "k = 2" by (simp add: len)
  with k(3,4) ne a0 a2 show ?thesis by simp
qed

section \<open>The edit mutator, the feedback serializer and the confidence flag\<close>

lemma findIndex_None_iff: "findIndex P xs = None \<longleftrightarrow> (\<forall>x\<in>set xs. \<not> P x)"
  by (induction xs) auto

lemma findIndex_Some_first:
  "findIndex P xs = Some k \<Longrightarrow> k < length xs \<and> P (xs ! k) \<and> (\<forall>m<k. \<not> P (xs ! m))"
proof (induction xs arbitrary: k)
  case Nil
  then show ?case by simp
next
  case (Cons x xs)
  show ?case
  proof (cases "P x")
    case True
    with Cons.prems show ?thesis by simp
  next
    case False
    with Cons.prems obtain k' where k': "findIndex P xs = Some k'" "k = Suc k'" by auto
    from Cons.IH [OF k'(1)] have ih: "k' < length xs" "P (xs ! k')" "\<forall>m<k'. \<not> P (xs ! m)"
      by simp_all
    have "\<forall>m<k. \<not> P ((x # xs) ! m)"
    proof (intro allI impI)
      fix m assume "m < k"
      then show "\<not> P ((x # xs) ! m)" using False ih(3) k'(2) by (cases m) simp_all
    qed
    with ih k'(2) show ?thesis by simp
  qed
qed

text \<open>
  C3. When the flat list has a cell at row \<open>r\<close> and column \<open>c\<close>, the edit finds the
  first such cell, at position \<open>k\<close>, and replaces its value only: confidence, reference
  id, row label, column and the other optional fields of that cell are what they were,
  the list keeps its length and every other position keeps its cell.
\<close>

theorem edit_existing_cell:
  assumes "x \<in> set cs" "parseRowIndex (fila x) = r" "col x = c"
  shows "\<exists>k<length cs.
           parseRowIndex (fila (cs ! k)) = r \<and> col (cs ! k) = c \<and>
           (\<forall>m<k. \<not> (parseRowIndex (fila (cs ! m)) = r \<and> col (cs ! m) = c)) \<and>
           length (handleValueChange cs r c v) = length cs \<and>
           handleValueChange cs r c v ! k = (cs ! k)\<lparr>valor := v\<rparr> \<and>
           valor (handleValueChange cs r c v ! k) = v \<and>
           confianza (handleValueChange cs r c v ! k) = confianza (cs ! k) \<and>
           ref_id (handleValueChange cs r c v ! k) = ref_id (cs ! k) \<and>
           fila (handleValueChange cs r c v ! k) = fila (cs ! k) \<and>
           col (handleValueChange cs r c v ! k) = col (cs ! k) \<and>
           recorte_base64 (handleValueChange cs r c v ! k) = recorte_base64 (cs ! k) \<and>
           valor_original (handleValueChange cs r c v ! k) = valor_original (cs ! k) \<and>
           (\<forall>l<length cs. l \<noteq> k \<longrightarrow> handleValueChange cs r c v ! l = cs ! l)"
proof -
  let ?P = "\<lambda>y. parseRowIndex (fila y) = r \<and> col y = c"
  from assms have "findIndex ?P cs \<noteq> None" unfolding findIndex_None_iff by blast
  then obtain k where k: "findIndex ?P cs = Some k" by blast
  from findIndex_Some_first [OF k] have f: "k < length cs" "?P (cs ! k)"
    "\<forall>m<k. \<not> ?P (cs ! m)" by simp_all
  have h: "handleValueChange cs r c v = cs[k := (cs ! k)\<lparr>valor := v\<rparr>]"
    by (simp add: handleValueChange_def k)
  show ?thesis
    apply (rule exI [of _ k])
    unfolding h using f by simp
qed

theorem edit_existing_cell_witness:
  "sampleCells ! 0 \<in> set sampleCells \<and> parseRowIndex (fila (sampleCells ! 0)) = 0 \<and>
   col (sampleCells ! 0) = 2 \<and>
   handleValueChange sampleCells 0 2 ''7'' ! 0 = mkCell (Str ''Fila 1'') 2 ''7'' (6 / 10) (Some ''R0_C2'') \<and>
   handleValueChange sampleCells 0 2 ''7'' ! 1 = sampleCells ! 1 \<and>
   handleValueChange sampleCells 0 2 ''7'' ! 2 = sampleCells ! 2"
proof -
  have h1: "sampleCells ! 0 \<in> set sampleCells" by (simp add: sampleCells_def)
  have h2: "parseRowIndex (fila (sampleCells ! 0)) = 0" by (rule sample_rows)
  have h3: "col (sampleCells ! 0) = 2" by (simp add: sampleCells_def mkCell_def)
  have len: "length sampleCells = 3" by (simp add: sampleCells_def)
  from edit_existing_cell [OF h1 h2 h3, of "''7''"] obtain k where
    k: "k < length sampleCells"
    "\<forall>m<k. \<not> (parseRowIndex (fila (sampleCells ! m)) = 0 \<and> col (sampleCells ! m) = 2)"
    "handleValueChange sampleCells 0 2 ''7'' ! k = (sampleCells ! k)\<lparr>valor := ''7''\<rparr>"
    "\<forall>l<length sampleCells. l \<noteq> k \<longrightarrow> handleValueChange sampleCells 0 2 ''7'' ! l = sampleCells ! l"
    by auto
  have "k = 0"
  proof (rule ccontr)
    assume "k \<noteq> 0"
    then have "0 < k" by simp
    then have "\<not> (parseRowIndex (fila (sampleCells ! 0)) = 0 \<and> col (sampleCells ! 0) = 2)"
      by (rule k(2) [rule_format])
    with h2 h3 show False by simp
  qed
  with k(3,4) have "handleValueChange sampleCells 0 2 ''7'' ! 0 = (sampleCells ! 0)\<lparr>valor := ''7''\<rparr>"
    "handleValueChange sampleCells 0 2 ''7'' ! 1 = sampleCells ! 1"
    "handleValueChange sampleCells 0 2 ''7'' ! 2 = sampleCells ! 2"
    by (simp_all add: len)
  moreover have "(sampleCells ! 0)\<lparr>valor := ''7''\<rparr> = mkCell (Str ''Fila 1'') 2 ''7'' (6 / 10) (Some ''R0_C2'')"
    by (simp add: sampleCells_def mkCell_def)
  ultimately show ?thesis using h1 h2 h3 by simp
qed

text \<open>
  C6. When no cell of the flat list is at row \<open>r\<close> and column \<open>c\<close>, the edit appends
  one cell and changes nothing else: its row label is the number \<open>r\<close>, its column \<open>c\<close>,
  its value the new value, its confidence 1, and it has no reference id (serialised as
  the empty string).
\<close>

theorem edit_absent_cell:
  assumes "\<forall>x\<in>set cs. \<not> (parseRowIndex (fila x) = r \<and> col x = c)"
  shows "\<exists>new. handleValueChange cs r c v = cs @ [new] \<and>
           fila new = Num r \<and> parseRowIndex (fila new) = r \<and> col new = c \<and> valor new = v \<and>
           confianza new = 1 \<and> ref_id new = None \<and> refIdOrEmpty (ref_id new) = [] \<and>
           recorte_base64 new = None \<and> valor_original new = None"
proof -
  from assms have "findIndex (\<lambda>y. parseRowIndex (fila y) = r \<and> col y = c) cs = None"
    unfolding findIndex_None_iff .
  then show ?thesis
    by (simp add: handleValueChange_def parseRowIndex_def refIdOrEmpty_def)
qed

theorem edit_absent_cell_witness:
  "\<not> (\<exists>x\<in>set sampleCells. parseRowIndex (fila x) = 1 \<and> col x = 3) \<and>
   handleValueChange sampleCells 1 3 ''4'' = sampleCells @ [mkCell (Num 1) 3 ''4'' 1 None]"
proof -
  have h: "\<forall>x\<in>set sampleCells. \<not> (parseRowIndex (fila x) = 1 \<and> col x = 3)"
    by (simp add: sampleCells_def mkCell_def)
  from edit_absent_cell [OF h, of "''4''"] obtain new where
    n: "handleValueChange sampleCells 1 3 ''4'' = sampleCells @ [new]" "fila new = Num 1"
    "col new = 3" "valor new = ''4''" "confianza new = 1" "ref_id new = None"
    "recorte_base64 new = None" "valor_original new = None" by auto
  then have "new = mkCell (Num 1) 3 ''4'' 1 None" by (simp add: mkCell_def)
  with n(1) h show ?thesis by simp
qed

text \<open>
  C10. In a flat list where no two cells parse to the same row and column, editing
  \<open>(r, c)\<close> inside the grid and rebuilding the grid gives at \<open>(r, c)\<close> a cell with the
  edited value.
\<close>

theorem edit_then_rebuild:
  assumes "distinct (map (\<lambda>x. (parseRowIndex (fila x), col x)) cs)" "r < 5" "c < 5"
  shows "\<exists>x. gridAt (handleValueChange cs (of_nat r) (of_nat c) v) r c = Some x \<and> valor x = v"
proof -
  let ?P = "\<lambda>y. parseRowIndex (fila y) = of_nat r \<and> col y = of_nat c"
  let ?cs = "handleValueChange cs (of_nat r) (of_nat c) v"
  have g: "gridAt ?cs r c = find (atCoord r c) (rev ?cs)" using assms(2,3) by (rule gridAt_find)
  show ?thesis
  proof (cases "findIndex ?P cs")
    case None
    then have "find (atCoord r c) (rev ?cs) =
        Some \<lparr>fila = Num (of_nat r), col = of_nat c, valor = v, confianza = 1,
              ref_id = None, recorte_base64 = None, valor_original = None\<rparr>"
      by (simp add: handleValueChange_def atCoord_def parseRowIndex_def)
    with g show ?thesis by simp
  next
    case (Some k)
    from findIndex_Some_first [OF Some] have f: "k < length cs" "?P (cs ! k)" by simp_all
    let ?y = "(cs ! k)\<lparr>valor := v\<rparr>"
    have h: "?cs = cs[k := ?y]" by (simp add: handleValueChange_def Some)
    have y: "atCoord r c ?y" using f(2) by (simp add: atCoord_def)
    have "?y \<in> set (rev ?cs)" unfolding h using f(1) by (simp add: set_update_memI)
    with y have "find (atCoord r c) (rev ?cs) \<noteq> None" unfolding find_None_iff by blast
    then obtain z where z: "find (atCoord r c) (rev ?cs) = Some z" by blast
    then obtain k' where k': "k' < length ?cs" "?cs ! k' = z" "atCoord r c z"
      unfolding find_rev_last by blast
    have "k' = k"
    proof (rule ccontr)
      assume ne: "k' \<noteq> k"
      with k'(1,2) have zz: "z = cs ! k'" "k' < length cs" unfolding h by simp_all
      with k'(3) f(2) have "(parseRowIndex (fila (cs ! k')), col (cs ! k')) =
          (parseRowIndex (fila (cs ! k)), col (cs ! k))" by (simp add: atCoord_def)
      then have eq: "map (\<lambda>x. (parseRowIndex (fila x), col x)) cs ! k' =
          map (\<lambda>x. (parseRowIndex (fila x), col x)) cs ! k" using zz(2) f(1) by simp
      from assms(1) have "(map (\<lambda>x. (parseRowIndex (fila x), col x)) cs ! k' =
          map (\<lambda>x. (parseRowIndex (fila x), col x)) cs ! k) = (k' = k)"
        by (rule nth_eq_iff_index_eq) (simp_all add: zz(2) f(1))
      with eq have "k' = k" by blast
      with ne show False by simp
    qed
    with k'(2) f(1) have "z = ?y" unfolding h by simp
    with z g show ?thesis by simp
  qed
qed

theorem edit_then_rebuild_witness:
  "distinct (map (\<lambda>x. (parseRowIndex (fila x), col x)) sampleCellsNoDup) \<and>
   (\<exists>x. gridAt (handleValueChange sampleCellsNoDup 0 2 ''7'') 0 2 = Some x \<and> valor x = ''7'')"
proof -
  have h: "distinct (map (\<lambda>x. (parseRowIndex (fila x), col x)) sampleCellsNoDup)"
    unfolding sample_rows_nodup by simp
  from edit_then_rebuild [OF h, of 0 2 "''7''"] h show ?thesis by simp
qed

text \<open>
  C4. The feedback payload has one correction per cell of the flat list, in order and
  with none left out. Its reference id is the cell's, or the empty string when the cell
  has none; its corrected value is the cell's value; its row and column are the parsed
  ones; its original value is the value of the first snapshot cell at the same parsed
  row and column, or the empty string when the snapshot has none.
\<close>

theorem feedback_corrections:
  "length (correcciones (feedbackPayload z cs orig)) = length cs \<and>
   (\<forall>i<length cs.
      c_ref_id (correcciones (feedbackPayload z cs orig) ! i) =
        (case ref_id (cs ! i) of None \<Rightarrow> [] | Some s \<Rightarrow> s) \<and>
      c_valor_corregido (correcciones (feedbackPayload z cs orig) ! i) = valor (cs ! i) \<and>
      c_fila (correcciones (feedbackPayload z cs orig) ! i) = parseRowIndex (fila (cs ! i)) \<and>
      c_col (correcciones (feedbackPayload z cs orig) ! i) = col (cs ! i) \<and>
      ((\<forall>oc\<in>set orig. \<not> sameCoord oc (cs ! i)) \<longrightarrow>
         c_valor_original (correcciones (feedbackPayload z cs orig) ! i) = []) \<and>
      ((\<exists>oc\<in>set orig. sameCoord oc (cs ! i)) \<longrightarrow>
         (\<exists>j<length orig. sameCoord (orig ! j) (cs ! i) \<and>
            (\<forall>m<j. \<not> sameCoord (orig ! m) (cs ! i)) \<and>
            c_valor_original (correcciones (feedbackPayload z cs orig) ! i) = valor (orig ! j))))"
proof (intro conjI allI impI)
  show "length (correcciones (feedbackPayload z cs orig)) = length cs"
    by (simp add: feedbackPayload_def validCorrections_def)
next
  fix i assume i: "i < length cs"
  let ?k = "correcciones (feedbackPayload z cs orig) ! i"
  let ?Q = "\<lambda>oc. parseRowIndex (fila oc) = parseRowIndex (fila (cs ! i)) \<and> col oc = col (cs ! i)"
  have k: "?k = correction orig (cs ! i)"
    using i by (simp add: feedbackPayload_def validCorrections_def)
  show "c_ref_id ?k = (case ref_id (cs ! i) of None \<Rightarrow> [] | Some s \<Rightarrow> s)"
    by (simp add: k correction_def Let_def refIdOrEmpty_def split: option.splits)
  show "c_valor_corregido ?k = valor (cs ! i)" by (simp add: k correction_def Let_def)
  show "c_fila ?k = parseRowIndex (fila (cs ! i))" by (simp add: k correction_def Let_def)
  show "c_col ?k = col (cs ! i)" by (simp add: k correction_def Let_def)
  have vo: "c_valor_original ?k = (case find ?Q orig of None \<Rightarrow> [] | Some oc \<Rightarrow> valor oc)"
    by (simp add: k correction_def Let_def)
  {
    assume "\<forall>oc\<in>set orig. \<not> sameCoord oc (cs ! i)"
    then have "find ?Q orig = None" unfolding find_None_iff sameCoord_def by blast
    then show "c_valor_original ?k = []" by (simp add: vo)
  }
  {
    assume "\<exists>oc\<in>set orig. sameCoord oc (cs ! i)"
    then have "find ?Q orig \<noteq> None" unfolding find_None_iff sameCoord_def by blast
    then obtain oc where oc: "find ?Q orig = Some oc" by blast
    then obtain j where j: "j < length orig" "?Q (orig ! j)" "oc = orig ! j"
      "\<forall>m<j. \<not> ?Q (orig ! m)" unfolding find_Some_iff by blast
    show "\<exists>j<length orig. sameCoord (orig ! j) (cs ! i) \<and>
            (\<forall>m<j. \<not> sameCoord (orig ! m) (cs ! i)) \<and>
            c_valor_original ?k = valor (orig ! j)"
      apply (rule exI [of _ j])
      using j by (simp add: vo oc sameCoord_def)
  }
qed

theorem feedback_corrections_witness:
  "(\<exists>oc\<in>set sampleCells. sameCoord oc ([mkCell (Num 0) 2 ''9'' 1 None] ! 0)) \<and>
   c_valor_original (correcciones (feedbackPayload 1 [mkCell (Num 0) 2 ''9'' 1 None] sampleCells) ! 0) = ''5'' \<and>
   c_valor_corregido (correcciones (feedbackPayload 1 [mkCell (Num 0) 2 ''9'' 1 None] sampleCells) ! 0) = ''9'' \<and>
   c_ref_id (correcciones (feedbackPayload 1 [mkCell (Num 0) 2 ''9'' 1 None] sampleCells) ! 0) = []"
proof -
  let ?cs = "[mkCell (Num 0) 2 ''9'' 1 None]"
  have s0: "sameCoord (sampleCells ! 0) (?cs ! 0)"
    by (simp add: sameCoord_def sample_rows) (simp add: sampleCells_def mkCell_def parseRowIndex_def)
  have "sampleCells ! 0 \<in> set sampleCells" by (simp add: sampleCells_def)
  with s0 have h: "\<exists>oc\<in>set sampleCells. sameCoord oc (?cs ! 0)" by blast
  have i: "0 < length ?cs" by simp
  note t = feedback_corrections [of 1 ?cs sampleCells, THEN conjunct2, rule_format, OF i]
  from t h obtain j where j: "\<forall>m<j. \<not> sameCoord (sampleCells ! m) (?cs ! 0)"
    "c_valor_original (correcciones (feedbackPayload 1 ?cs sampleCells) ! 0) = valor (sampleCells ! j)"
    by blast
  have "j = 0"
  proof (rule ccontr)
    assume "j \<noteq> 0"
    then have "0 < j" by simp
    then have "\<not> sameCoord (sampleCells ! 0) (?cs ! 0)" by (rule j(1) [rule_format])
    with s0 show False by simp
  qed
  with j(2) have "c_valor_original (correcciones (feedbackPayload 1 ?cs sampleCells) ! 0) = ''5''"
    by (simp add: sampleCells_def mkCell_def)
  moreover from t have "c_valor_corregido (correcciones (feedbackPayload 1 ?cs sampleCells) ! 0) = ''9''"
    "c_ref_id (correcciones (feedbackPayload 1 ?cs sampleCells) ! 0) = []"
    by (simp_all add: mkCell_def)
  ultimately show ?thesis using h by simp
qed

text \<open>
  C8. A cell is flagged low-confidence exactly when its confidence is below 0.85: at
  0.85 it is not flagged, at 0.84999 it is. An empty grid position is never flagged.
\<close>

theorem low_confidence_strict:
  "isLowConfidence (Some x) = (confianza x < 85 / 100) \<and>
   \<not> isLowConfidence None \<and>
   \<not> isLowConfidence (Some (x\<lparr>confianza := 85 / 100\<rparr>)) \<and>
   isLowConfidence (Some (x\<lparr>confianza := 84999 / 100000\<rparr>))"
  by (simp add: isLowConfidence_def)

section \<open>The confirmation path\<close>

text \<open>
  C7. When the request of confirm fails, the application shows an error notification
  that carries the message of the error, or the connection error text when that message
  holds \<open>Failed to fetch\<close>. It keeps its view and its success message, and the editor
  keeps its flat list, its snapshot and hence its grid; confirming again sends the very
  same request.
\<close>

theorem confirm_failure_leaves_state:
  assumes "handleConfirm ed app outcome = (ed', app', req)"
    and "ocrData_id app = Some i" and "failed outcome"
  shows "notification app' =
           Some (''Error al guardar: '' @
                 (if includes_str (errorMessage outcome) ''Failed to fetch''
                  then ''Error de conexi'' @ [CHR 0xF3] @ ''n.''
                  else errorMessage outcome), NError) \<and>
         view app' = view app \<and> successMsg app' = successMsg app \<and>
         cells ed' = cells ed \<and> originalCells ed' = originalCells ed \<and>
         gridRows (cells ed') = gridRows (cells ed) \<and>
         (\<exists>r. req = Some r \<and> cambios r = cells ed \<and>
              (\<forall>outcome2. snd (snd (handleConfirm ed' app' outcome2)) = Some r))"
proof -
  from assms(1) have ed': "ed' = ed\<lparr>isSaving := False\<rparr>"
    and app': "app' = fst (handleValidationSave app (cells ed) outcome)"
    and req: "req = snd (handleValidationSave app (cells ed) outcome)"
    unfolding handleConfirm_parts by simp_all
  have m: "app' = catchValidation app (errorMessage outcome)"
    unfolding app' using assms(2,3) by (rule handleValidationSave_failed)
  have r: "req = Some (validationRequest app i (cells ed))"
    unfolding req using assms(2) by (rule handleValidationSave_request)
  have id': "ocrData_id app' = Some i" using assms(2) by (simp add: m catchValidation_fields)
  have same: "validationRequest app' i (cells ed') = validationRequest app i (cells ed)"
    by (simp add: validationRequest_def m ed' catchValidation_fields)
  have retry: "\<forall>outcome2. snd (snd (handleConfirm ed' app' outcome2)) =
      Some (validationRequest app i (cells ed))"
    by (simp add: handleConfirm_parts handleValidationSave_request [OF id'] same)
  have c: "cambios (validationRequest app i (cells ed)) = cells ed"
    by (simp add: validationRequest_def)
  show ?thesis
    using r retry c
    by (simp add: m ed' catchValidation_fields)
qed

theorem confirm_failure_leaves_state_witness:
  "ocrData_id sampleApp = Some 17 \<and> failed (Response 500 (BodyText ''boom'')) \<and>
   failed (FetchRejected ''Failed to fetch'') \<and>
   notification (fst (snd (handleConfirm (sampleEditor sampleCells) sampleApp (Response 500 (BodyText ''boom''))))) =
     Some (''Error al guardar: Fall'' @ [CHR 0xF3] @ '' validaci'' @ [CHR 0xF3] @ ''n (500): boom'', NError) \<and>
   notification (fst (snd (handleConfirm (sampleEditor sampleCells) sampleApp (FetchRejected ''Failed to fetch'')))) =
     Some (''Error al guardar: Error de conexi'' @ [CHR 0xF3] @ ''n.'', NError) \<and>
   view (fst (snd (handleConfirm (sampleEditor sampleCells) sampleApp (Response 500 (BodyText ''boom''))))) = ViewEditor \<and>
   cells (fst (handleConfirm (sampleEditor sampleCells) sampleApp (Response 500 (BodyText ''boom'')))) = sampleCells"
proof -
  let ?hc = "handleConfirm (sampleEditor sampleCells) sampleApp (Response 500 (BodyText ''boom''))"
  let ?hr = "handleConfirm (sampleEditor sampleCells) sampleApp (FetchRejected ''Failed to fetch'')"
  have h1: "?hc = (fst ?hc, fst (snd ?hc), snd (snd ?hc))" by simp
  have k1: "?hr = (fst ?hr, fst (snd ?hr), snd (snd ?hr))" by simp
  have h2: "ocrData_id sampleApp = Some 17" by (simp add: sampleApp_def)
  have h3: "failed (Response 500 (BodyText ''boom''))" by (simp add: failed_def ok_def)
  have k3: "failed (FetchRejected ''Failed to fetch'')" by (simp add: failed_def)
  have d: "decimal 500 = ''500''" by (simp add: decimal.simps char_of_eq_iff)
  from confirm_failure_leaves_state [OF h1 h2 h3] confirm_failure_leaves_state [OF k1 h2 k3]
    h2 h3 k3
  show ?thesis
    by (simp add: sampleApp_def sampleEditor_def errorMessage_def d)
qed

end
